theory Spec2Isabelle
  imports Main "HOL-Library.Word" "HOL-Library.Sublist"
begin

section \<open>JavaScript values and strings\<close>

text \<open>
  A JavaScript string is a sequence of UTF-16 code units. The handlers compare strings,
  trim them and use them as keys, so a string is a list of 16-bit words.
\<close>

type_synonym jsstring = "16 word list"

definition ascii :: "string \<Rightarrow> jsstring" where
  "ascii s = map (\<lambda>c. of_nat (of_char c)) s"

text \<open>
  The value a handler finds in \<open>request.body\<close>, or in a property of it: what the JSON
  parser can deliver, and \<open>undefined\<close> for a request that carries no body. Numbers are
  kept as integers: the handlers only test them for truthiness and for their type.
\<close>

datatype jsval =
    JUndefined
  | JNull
  | JBool bool
  | JNum int
  | JStr jsstring
  | JArr "jsval list"
  | JObj "(jsstring \<times> jsval) list"

datatype js_error = TypeError

text \<open>\<open>!v\<close> is true for the falsy values.\<close>

fun falsy :: "jsval \<Rightarrow> bool" where
  "falsy JUndefined = True"
| "falsy JNull = True"
| "falsy (JBool b) = (\<not> b)"
| "falsy (JNum n) = (n = 0)"
| "falsy (JStr s) = (s = [])"
| "falsy (JArr xs) = False"
| "falsy (JObj fs) = False"

fun typeof :: "jsval \<Rightarrow> string" where
  "typeof JUndefined = ''undefined''"
| "typeof JNull = ''object''"
| "typeof (JBool b) = ''boolean''"
| "typeof (JNum n) = ''number''"
| "typeof (JStr s) = ''string''"
| "typeof (JArr xs) = ''object''"
| "typeof (JObj fs) = ''object''"

text \<open>
  \<open>String.prototype.trim\<close> removes the white space and line terminator code units of
  ECMAScript from both ends.
\<close>

definition is_whitespace :: "16 word \<Rightarrow> bool" where
  "is_whitespace u =
     (u = 0x9 \<or> u = 0xA \<or> u = 0xB \<or> u = 0xC \<or> u = 0xD \<or> u = 0x20 \<or> u = 0xA0 \<or>
      u = 0x1680 \<or> (0x2000 \<le> u \<and> u \<le> 0x200A) \<or> u = 0x2028 \<or> u = 0x2029 \<or>
      u = 0x202F \<or> u = 0x205F \<or> u = 0x3000 \<or> u = 0xFEFF)"

definition trim :: "jsstring \<Rightarrow> jsstring" where
  "trim s = rev (dropWhile is_whitespace (rev (dropWhile is_whitespace s)))"

text \<open>
  \<open>const { content } = request.body\<close>: destructuring \<open>undefined\<close> or \<open>null\<close> throws a
  TypeError; an object gives its property or \<open>undefined\<close>; every other value has no
  property of that name.
\<close>

fun destructure_content :: "jsval \<Rightarrow> js_error + jsval" where
  "destructure_content JUndefined = Inl TypeError"
| "destructure_content JNull = Inl TypeError"
| "destructure_content (JObj fs) =
     Inr (case map_of fs (ascii ''content'') of None \<Rightarrow> JUndefined | Some v \<Rightarrow> v)"
| "destructure_content (JBool b) = Inr JUndefined"
| "destructure_content (JNum n) = Inr JUndefined"
| "destructure_content (JStr s) = Inr JUndefined"
| "destructure_content (JArr xs) = Inr JUndefined"

text \<open>
  The guard of both writing handlers:
  \<open>!content || typeof content !== 'string' || content.trim() === ''\<close>.
  The last disjunct is only reached for a string.
\<close>

definition content_rejected :: "jsval \<Rightarrow> bool" where
  "content_rejected content =
     (falsy content \<or> typeof content \<noteq> ''string'' \<or>
      (case content of JStr s \<Rightarrow> trim s = [] | _ \<Rightarrow> False))"

section \<open>Number to string\<close>

text \<open>
  The template literal of the id converts two integral numbers to decimal strings. Both
  stay below \<open>10^21\<close> in absolute value, where the conversion prints every digit.
\<close>

definition digit :: "nat \<Rightarrow> 16 word" where
  "digit d = of_nat (48 + d)"

fun toString_nat :: "nat \<Rightarrow> jsstring" where
  "toString_nat n =
     (if n < 10 then [digit n] else toString_nat (n div 10) @ [digit (n mod 10)])"

definition toString_int :: "int \<Rightarrow> jsstring" where
  "toString_int i = (if i < 0 then 0x2D # toString_nat (nat (- i)) else toString_nat (nat i))"

section \<open>The message store\<close>

text \<open>
  The interface \<open>Message\<close>. Types are erased at run time, so \<open>content\<close> holds the value
  the handler was given; that it is a string is a property of the handlers.
\<close>

record message =
  id_msg :: jsstring
  content :: jsval
  createdAt :: jsstring
  updatedAt :: jsstring

text \<open>
  A JavaScript \<open>Map\<close> keeps its entries in insertion order: \<open>set\<close> replaces the value of
  a key that is present where it stands and appends a new key at the end, \<open>delete\<close>
  removes the entry, \<open>values\<close> lists the values in order.
\<close>

type_synonym 'v jsmap = "(jsstring \<times> 'v) list"

definition Map_get :: "jsstring \<Rightarrow> 'v jsmap \<Rightarrow> 'v option" where
  "Map_get k m = map_of m k"

fun Map_set :: "jsstring \<Rightarrow> 'v \<Rightarrow> 'v jsmap \<Rightarrow> 'v jsmap" where
  "Map_set k v [] = [(k, v)]"
| "Map_set k v ((k', v') # m) = (if k' = k then (k, v) # m else (k', v') # Map_set k v m)"

definition Map_delete :: "jsstring \<Rightarrow> 'v jsmap \<Rightarrow> 'v jsmap" where
  "Map_delete k m = filter (\<lambda>e. fst e \<noteq> k) m"

definition Map_values :: "'v jsmap \<Rightarrow> 'v list" where
  "Map_values m = map snd m"

text \<open>
  The state of the process: the map \<open>messages\<close> and \<open>idCounter\<close>. The counter is a
  JavaScript number: \<open>idCounter++\<close> adds one exactly below \<open>2^53\<close> and leaves \<open>2^53\<close> as
  it is (the sum rounds back to it), so the counter, which starts at 0, never exceeds
  \<open>2^53\<close>.
\<close>

record state =
  messages :: "message jsmap"
  idCounter :: nat

definition init_state :: state where
  "init_state = \<lparr>messages = [], idCounter = 0\<rparr>"

definition increment :: "nat \<Rightarrow> nat" where
  "increment n = (if n < 2 ^ 53 then n + 1 else n)"

text \<open>
  What a handler reads from the clock: \<open>Date.now()\<close> in milliseconds and the string
  \<open>new Date().toISOString()\<close>.
\<close>

record clock =
  Date_now :: int
  toISOString :: jsstring

section \<open>Replies\<close>

datatype payload =
    Hello
  | ErrorBody jsstring
  | MessageBody message
  | ListBody "message list"
  | Empty

record reply =
  statusCode :: nat
  body :: payload

type_synonym outcome = "js_error + reply"

definition content_required :: jsstring where
  "content_required = ascii ''Content is required and must be a non-empty string''"

definition not_found :: jsstring where
  "not_found = ascii ''Message not found''"

section \<open>The handlers\<close>

text \<open>A handler that sets no status replies with 200.\<close>

definition get_root :: "state \<Rightarrow> outcome \<times> state" where
  "get_root s = (Inr \<lparr>statusCode = 200, body = Hello\<rparr>, s)"

definition new_id :: "clock \<Rightarrow> state \<Rightarrow> jsstring" where
  "new_id clk s = toString_int (Date_now clk) @ [0x2D] @ toString_nat (idCounter s)"

definition post_messages :: "clock \<Rightarrow> jsval \<Rightarrow> state \<Rightarrow> outcome \<times> state" where
  "post_messages clk request_body s =
     (case destructure_content request_body of
        Inl e \<Rightarrow> (Inl e, s)
      | Inr c \<Rightarrow>
          if content_rejected c
          then (Inr \<lparr>statusCode = 400, body = ErrorBody content_required\<rparr>, s)
          else
            let i = new_id clk s;
                timestamp = toISOString clk;
                message = \<lparr>id_msg = i, content = c, createdAt = timestamp,
                           updatedAt = timestamp\<rparr>
            in (Inr \<lparr>statusCode = 201, body = MessageBody message\<rparr>,
                \<lparr>messages = Map_set i message (messages s),
                 idCounter = increment (idCounter s)\<rparr>))"

definition get_messages :: "state \<Rightarrow> outcome \<times> state" where
  "get_messages s = (Inr \<lparr>statusCode = 200, body = ListBody (Map_values (messages s))\<rparr>, s)"

definition get_message :: "jsstring \<Rightarrow> state \<Rightarrow> outcome \<times> state" where
  "get_message i s =
     (case Map_get i (messages s) of
        None \<Rightarrow> (Inr \<lparr>statusCode = 404, body = ErrorBody not_found\<rparr>, s)
      | Some message \<Rightarrow> (Inr \<lparr>statusCode = 200, body = MessageBody message\<rparr>, s))"

definition put_message :: "clock \<Rightarrow> jsstring \<Rightarrow> jsval \<Rightarrow> state \<Rightarrow> outcome \<times> state" where
  "put_message clk i request_body s =
     (case destructure_content request_body of
        Inl e \<Rightarrow> (Inl e, s)
      | Inr c \<Rightarrow>
          if content_rejected c
          then (Inr \<lparr>statusCode = 400, body = ErrorBody content_required\<rparr>, s)
          else
            (case Map_get i (messages s) of
               None \<Rightarrow> (Inr \<lparr>statusCode = 404, body = ErrorBody not_found\<rparr>, s)
             | Some message \<Rightarrow>
                 let updatedMessage = message\<lparr>content := c, updatedAt := toISOString clk\<rparr>
                 in (Inr \<lparr>statusCode = 200, body = MessageBody updatedMessage\<rparr>,
                     s\<lparr>messages := Map_set i updatedMessage (messages s)\<rparr>)))"

definition delete_message :: "jsstring \<Rightarrow> state \<Rightarrow> outcome \<times> state" where
  "delete_message i s =
     (case Map_get i (messages s) of
        None \<Rightarrow> (Inr \<lparr>statusCode = 404, body = ErrorBody not_found\<rparr>, s)
      | Some message \<Rightarrow>
          (Inr \<lparr>statusCode = 204, body = Empty\<rparr>,
           s\<lparr>messages := Map_delete i (messages s)\<rparr>))"

section \<open>Requests and runs\<close>

datatype request =
    GetRoot
  | PostMessages jsval
  | GetMessages
  | GetMessage jsstring
  | PutMessage jsstring jsval
  | DeleteMessage jsstring

fun handle :: "clock \<Rightarrow> request \<Rightarrow> state \<Rightarrow> outcome \<times> state" where
  "handle clk GetRoot s = get_root s"
| "handle clk (PostMessages b) s = post_messages clk b s"
| "handle clk GetMessages s = get_messages s"
| "handle clk (GetMessage i) s = get_message i s"
| "handle clk (PutMessage i b) s = put_message clk i b s"
| "handle clk (DeleteMessage i) s = delete_message i s"

text \<open>
  The requests are handled one after the other, each with its own clock readings;
  \<open>final\<close> is the state they leave and \<open>outcomes\<close> what each of them got.
\<close>

fun final :: "(clock \<times> request) list \<Rightarrow> state \<Rightarrow> state" where
  "final [] s = s"
| "final ((clk, r) # rs) s = final rs (snd (handle clk r s))"

fun outcomes :: "(clock \<times> request) list \<Rightarrow> state \<Rightarrow> outcome list" where
  "outcomes [] s = []"
| "outcomes ((clk, r) # rs) s = fst (handle clk r s) # outcomes rs (snd (handle clk r s))"

section \<open>Observations on a run\<close>

text \<open>The id of the message a create replied with, and the ids created along a run.\<close>

fun created_id :: "outcome \<Rightarrow> jsstring option" where
  "created_id (Inl e) = None"
| "created_id (Inr r) =
     (case body r of
        MessageBody m \<Rightarrow> if statusCode r = 201 then Some (id_msg m) else None
      | _ \<Rightarrow> None)"

definition created_ids :: "outcome list \<Rightarrow> jsstring list" where
  "created_ids outs = List.map_filter created_id outs"

fun has_status :: "nat \<Rightarrow> outcome \<Rightarrow> bool" where
  "has_status n (Inl e) = False"
| "has_status n (Inr r) = (statusCode r = n)"

definition count_status :: "nat \<Rightarrow> outcome list \<Rightarrow> nat" where
  "count_status n outs = length (filter (has_status n) outs)"

section \<open>The validation rule in the words of the specification\<close>

text \<open>
  Content fails validation when it is absent, not a string, or empty after trimming
  leading and trailing white space.
\<close>

fun is_string :: "jsval \<Rightarrow> bool" where
  "is_string (JStr s) = True"
| "is_string v = False"

fun empty_after_trim :: "jsval \<Rightarrow> bool" where
  "empty_after_trim (JStr s) = (trim s = [])"
| "empty_after_trim v = False"

definition fails_validation :: "jsval \<Rightarrow> bool" where
  "fails_validation c = (c = JUndefined \<or> \<not> is_string c \<or> empty_after_trim c)"

section \<open>Invariants of the state\<close>

text \<open>
  The counter an id was made with is read back from the digits after its last hyphen.
\<close>

definition digits_value :: "jsstring \<Rightarrow> nat" where
  "digits_value ds = foldl (\<lambda>a u. 10 * a + (unat u - 48)) 0 ds"

definition counter_of :: "jsstring \<Rightarrow> nat" where
  "counter_of k = digits_value (rev (takeWhile (\<lambda>u. u \<noteq> 0x2D) (rev k)))"

text \<open>Every entry is stored under the id of its message, and no key occurs twice.\<close>

definition keyed :: "state \<Rightarrow> bool" where
  "keyed s =
     (distinct (map fst (messages s)) \<and> list_all (\<lambda>e. id_msg (snd e) = fst e) (messages s))"

text \<open>While the counter counts exactly, every stored id was made with a smaller counter.\<close>

definition counted :: "state \<Rightarrow> bool" where
  "counted s =
     (idCounter s < 2 ^ 53 \<longrightarrow> list_all (\<lambda>e. counter_of (fst e) < idCounter s) (messages s))"

text \<open>Every stored content passed the guard of the writing handlers.\<close>

definition accepted :: "state \<Rightarrow> bool" where
  "accepted s = list_all (\<lambda>e. \<not> content_rejected (content (snd e))) (messages s)"

section \<open>Example requests\<close>

definition clock0 :: clock where
  "clock0 = \<lparr>Date_now = 1700000000000, toISOString = ascii ''2023-11-14T22:13:20.000Z''\<rparr>"

definition clock1 :: clock where
  "clock1 = \<lparr>Date_now = 1700000000010, toISOString = ascii ''2023-11-14T22:13:20.010Z''\<rparr>"

definition with_content :: "jsval \<Rightarrow> jsval" where
  "with_content v = JObj [(ascii ''content'', v)]"

definition hello :: jsstring where
  "hello = ascii '' Hello, World! ''"

definition blank :: jsstring where
  "blank = [0x20, 0x9, 0x3000]"

definition id0 :: jsstring where
  "id0 = ascii ''1700000000000-0''"

text \<open>The state after one create at \<open>clock0\<close>.\<close>

definition state1 :: state where
  "state1 = final [(clock0, PostMessages (with_content (JStr hello)))] init_state"

definition message1 :: message where
  "message1 =
     \<lparr>id_msg = id0, content = JStr hello, createdAt = toISOString clock0,
      updatedAt = toISOString clock0\<rparr>"

definition id1 :: jsstring where
  "id1 = ascii ''1700000000000-1''"

text \<open>Two creates at the same instant, then a delete of the first message.\<close>

definition two_creates :: "(clock \<times> request) list" where
  "two_creates =
     [(clock0, PostMessages (with_content (JStr hello))),
      (clock0, PostMessages (with_content (JStr hello)))]"

definition create_create_delete :: "(clock \<times> request) list" where
  "create_create_delete = two_creates @ [(clock1, DeleteMessage id0)]"

definition message2 :: message where
  "message2 =
     \<lparr>id_msg = id1, content = JStr hello, createdAt = toISOString clock0,
      updatedAt = toISOString clock0\<rparr>"

section \<open>Properties of the map operations\<close>

declare toString_nat.simps [simp del]

lemma Map_get_set: "Map_get k' (Map_set k v m) = (if k' = k then Some v else Map_get k' m)"
  by (induction m) (auto simp: Map_get_def)

lemma Map_get_delete: "Map_get k' (Map_delete k m) = (if k' = k then None else Map_get k' m)"
  by (induction m) (auto simp: Map_get_def Map_delete_def)

lemma Map_get_None: "Map_get k m = None \<longleftrightarrow> k \<notin> fst ` set m"
  by (simp add: Map_get_def map_of_eq_None_iff)

lemma Map_get_Some_key: "Map_get k m = Some v \<Longrightarrow> k \<in> fst ` set m"
  using Map_get_None [of k m] by auto

lemma Map_get_in_set: "Map_get k m = Some v \<Longrightarrow> (k, v) \<in> set m"
  by (simp add: Map_get_def map_of_SomeD)

lemma Map_set_other: "k' \<noteq> k \<Longrightarrow> Map_get k' (Map_set k v m) = Map_get k' m"
  by (simp add: Map_get_set)

lemma Map_set_fresh: "k \<notin> fst ` set m \<Longrightarrow> Map_set k v m = m @ [(k, v)]"
  by (induction m) auto

lemma keys_Map_set_present: "k \<in> fst ` set m \<Longrightarrow> map fst (Map_set k v m) = map fst m"
  by (induction m) force+

lemma length_Map_set_present: "k \<in> fst ` set m \<Longrightarrow> length (Map_set k v m) = length m"
  by (induction m) force+

lemma set_Map_set: "set (Map_set k v m) \<subseteq> insert (k, v) (set m)"
  by (induction m) (auto split: if_splits)

lemma distinct_Map_set: "distinct (map fst m) \<Longrightarrow> distinct (map fst (Map_set k v m))"
  by (cases "k \<in> fst ` set m") (simp_all add: keys_Map_set_present Map_set_fresh)

lemma list_all_Map_set: "list_all P m \<Longrightarrow> P (k, v) \<Longrightarrow> list_all P (Map_set k v m)"
  using set_Map_set [of k v m] by (auto simp: list_all_iff)

lemma list_all_Map_get: "list_all P m \<Longrightarrow> Map_get k m = Some v \<Longrightarrow> P (k, v)"
  by (auto simp: list_all_iff dest: Map_get_in_set)

lemma distinct_Map_delete: "distinct (map fst m) \<Longrightarrow> distinct (map fst (Map_delete k m))"
  by (simp add: Map_delete_def distinct_map_filter)

lemma set_Map_delete: "set (Map_delete k m) \<subseteq> set m"
  by (auto simp: Map_delete_def)

lemma list_all_Map_delete: "list_all P m \<Longrightarrow> list_all P (Map_delete k m)"
  by (simp add: Map_delete_def list_all_iff)

lemma length_Map_delete:
  "distinct (map fst m) \<Longrightarrow> k \<in> fst ` set m \<Longrightarrow> Suc (length (Map_delete k m)) = length m"
proof (induction m)
  case Nil
  then show ?case by simp
next
  case (Cons e m)
  show ?case
  proof (cases "fst e = k")
    case True
    with Cons.prems have "k \<notin> fst ` set m" by auto
    then have "filter (\<lambda>e. fst e \<noteq> k) m = m"
      by (auto simp: filter_id_conv)
    with True show ?thesis by (simp add: Map_delete_def)
  next
    case False
    with Cons show ?thesis by (auto simp: Map_delete_def)
  qed
qed

section \<open>Properties of trimming and of the guard\<close>

lemma trim_empty: "trim s = [] \<longleftrightarrow> (\<forall>u \<in> set s. is_whitespace u)"
proof -
  have "trim s = [] \<longleftrightarrow> (\<forall>u \<in> set (dropWhile is_whitespace s). is_whitespace u)"
    by (simp add: trim_def dropWhile_eq_Nil_conv)
  also have "\<dots> \<longleftrightarrow> dropWhile is_whitespace s = []"
    using hd_dropWhile [of is_whitespace s]
    by (cases "dropWhile is_whitespace s") (auto dest: set_dropWhileD)
  also have "\<dots> \<longleftrightarrow> (\<forall>u \<in> set s. is_whitespace u)"
    by (simp add: dropWhile_eq_Nil_conv)
  finally show ?thesis .
qed

lemma content_rejected_iff: "content_rejected c \<longleftrightarrow> fails_validation c"
  by (cases c) (auto simp: content_rejected_def fails_validation_def trim_def)

lemma content_required_nonempty: "content_required \<noteq> []"
  by (simp add: content_required_def ascii_def)

section \<open>Ids and counters\<close>

lemma unat_digit: "d < 10 \<Longrightarrow> unat (digit d) = 48 + d"
proof -
  assume "d < 10"
  have "unat (of_nat (48 + d) :: 16 word) = (48 + d) mod 2 ^ 16"
    by (simp only: unat_of_nat len_bit0 len_num1) simp
  with \<open>d < 10\<close> show ?thesis by (simp only: digit_def) simp
qed

lemma digit_not_hyphen: "d < 10 \<Longrightarrow> digit d \<noteq> 0x2D"
proof
  assume "d < 10" and "digit d = 0x2D"
  then have "48 + d = unat (0x2D :: 16 word)" using unat_digit [of d] by simp
  then show False by simp
qed

lemma toString_nat_digits: "set (toString_nat n) \<subseteq> digit ` {..<10}"
proof (induction n rule: toString_nat.induct)
  case (1 n)
  show ?case
  proof (cases "n < 10")
    case True
    then show ?thesis by (simp add: toString_nat.simps [of n])
  next
    case False
    with 1 show ?thesis by (simp add: toString_nat.simps [of n])
  qed
qed

lemma toString_nat_no_hyphen: "0x2D \<notin> set (toString_nat n)"
  using toString_nat_digits [of n] digit_not_hyphen by fastforce

lemma digits_value_snoc: "digits_value (ds @ [u]) = 10 * digits_value ds + (unat u - 48)"
  by (simp add: digits_value_def)

lemma digits_value_toString: "digits_value (toString_nat n) = n"
proof (induction n rule: toString_nat.induct)
  case (1 n)
  show ?case
  proof (cases "n < 10")
    case True
    then show ?thesis
      by (simp add: toString_nat.simps [of n] digits_value_def unat_digit)
  next
    case False
    with 1 show ?thesis
      by (simp add: toString_nat.simps [of n] digits_value_snoc unat_digit)
  qed
qed

lemma counter_of_hyphen: "0x2D \<notin> set ds \<Longrightarrow> counter_of (p @ [0x2D] @ ds) = digits_value ds"
proof -
  assume "0x2D \<notin> set ds"
  then have "takeWhile (\<lambda>u. u \<noteq> 0x2D) (rev ds @ 0x2D # rev p) = rev ds"
    by (subst takeWhile_append2) auto
  then show ?thesis by (simp add: counter_of_def)
qed

lemma counter_of_new_id: "counter_of (new_id clk s) = idCounter s"
  by (simp only: new_id_def counter_of_hyphen [OF toString_nat_no_hyphen] digits_value_toString)

section \<open>The cases of the handlers\<close>

lemma post_messages_accept:
  assumes "destructure_content b = Inr c" and "\<not> fails_validation c"
  shows "post_messages clk b s =
    (Inr \<lparr>statusCode = 201,
          body = MessageBody \<lparr>id_msg = new_id clk s, content = c,
            createdAt = toISOString clk, updatedAt = toISOString clk\<rparr>\<rparr>,
     \<lparr>messages = Map_set (new_id clk s)
        \<lparr>id_msg = new_id clk s, content = c, createdAt = toISOString clk,
         updatedAt = toISOString clk\<rparr> (messages s),
      idCounter = increment (idCounter s)\<rparr>)"
  using assms by (simp add: post_messages_def content_rejected_iff Let_def)

lemma post_messages_cases:
  obtains (throw) e where "post_messages clk b s = (Inl e, s)"
  | (reject) "post_messages clk b s =
      (Inr \<lparr>statusCode = 400, body = ErrorBody content_required\<rparr>, s)"
  | (accept) c where "destructure_content b = Inr c" and "\<not> fails_validation c"
proof (cases "destructure_content b")
  case (Inl e)
  then show ?thesis using throw by (simp add: post_messages_def)
next
  case (Inr c)
  then show ?thesis
    using reject accept by (cases "fails_validation c") (simp_all add: post_messages_def content_rejected_iff)
qed

lemma post_messages_created:
  "created_id (fst (post_messages clk b s)) = None \<and> snd (post_messages clk b s) = s \<or>
   created_id (fst (post_messages clk b s)) = Some (new_id clk s) \<and>
   (\<exists>m. messages (snd (post_messages clk b s)) = Map_set (new_id clk s) m (messages s))"
proof (cases rule: post_messages_cases [of clk b s])
  case (accept c)
  then show ?thesis by (auto simp: post_messages_accept)
qed simp_all

lemma put_message_cases:
  obtains (unchanged) "snd (put_message clk i b s) = s"
      and "\<not> has_status 201 (fst (put_message clk i b s))"
      and "\<not> has_status 204 (fst (put_message clk i b s))"
      and "created_id (fst (put_message clk i b s)) = None"
  | (update) c old where "\<not> fails_validation c" and "Map_get i (messages s) = Some old"
      and "put_message clk i b s =
        (Inr \<lparr>statusCode = 200,
              body = MessageBody (old\<lparr>content := c, updatedAt := toISOString clk\<rparr>)\<rparr>,
         s\<lparr>messages := Map_set i (old\<lparr>content := c, updatedAt := toISOString clk\<rparr>)
              (messages s)\<rparr>)"
proof (cases "destructure_content b")
  case (Inl e)
  then show ?thesis using unchanged by (simp add: put_message_def)
next
  case (Inr c)
  show ?thesis
  proof (cases "fails_validation c")
    case True
    with Inr show ?thesis using unchanged by (simp add: put_message_def content_rejected_iff)
  next
    case False
    show ?thesis
    proof (cases "Map_get i (messages s)")
      case None
      with Inr False show ?thesis
        using unchanged by (simp add: put_message_def content_rejected_iff)
    next
      case (Some old)
      with Inr False show ?thesis
        using update [of c old] by (simp add: put_message_def content_rejected_iff Let_def)
    qed
  qed
qed

lemma delete_message_cases:
  obtains (missing) "Map_get i (messages s) = None"
      and "delete_message i s = (Inr \<lparr>statusCode = 404, body = ErrorBody not_found\<rparr>, s)"
  | (removed) old where "Map_get i (messages s) = Some old"
      and "delete_message i s =
        (Inr \<lparr>statusCode = 204, body = Empty\<rparr>, s\<lparr>messages := Map_delete i (messages s)\<rparr>)"
  by (cases "Map_get i (messages s)") (simp_all add: delete_message_def)

lemma get_message_state: "snd (get_message i s) = s"
  by (simp add: get_message_def split: option.splits)

lemma handle_kinds:
  obtains (created) m where
      "fst (handle clk r s) = Inr \<lparr>statusCode = 201, body = MessageBody m\<rparr>"
      and "id_msg m = new_id clk s"
      and "snd (handle clk r s) =
        \<lparr>messages = Map_set (new_id clk s) m (messages s),
         idCounter = increment (idCounter s)\<rparr>"
  | (deleted) j where "j \<in> fst ` set (messages s)"
      and "fst (handle clk r s) = Inr \<lparr>statusCode = 204, body = Empty\<rparr>"
      and "snd (handle clk r s) = s\<lparr>messages := Map_delete j (messages s)\<rparr>"
  | (other) "\<not> has_status 201 (fst (handle clk r s))"
      and "\<not> has_status 204 (fst (handle clk r s))"
      and "created_id (fst (handle clk r s)) = None"
      and "idCounter (snd (handle clk r s)) = idCounter s"
      and "map fst (messages (snd (handle clk r s))) = map fst (messages s)"
proof (cases r)
  case GetRoot
  then show ?thesis using other by (simp add: get_root_def)
next
  case (PostMessages b)
  show ?thesis
  proof (cases rule: post_messages_cases [of clk b s])
    case (accept c)
    then show ?thesis
      using created [of "\<lparr>id_msg = new_id clk s, content = c, createdAt = toISOString clk,
        updatedAt = toISOString clk\<rparr>"]
      by (simp add: PostMessages post_messages_accept)
  qed (use other PostMessages in simp_all)
next
  case GetMessages
  then show ?thesis using other by (simp add: get_messages_def)
next
  case (GetMessage i)
  then show ?thesis using other by (simp add: get_message_def split: option.splits)
next
  case (PutMessage i b)
  show ?thesis
  proof (cases rule: put_message_cases [of clk i b s])
    case (update c old)
    then show ?thesis
      using other by (simp add: PutMessage keys_Map_set_present Map_get_Some_key)
  qed (use other PutMessage in simp_all)
next
  case (DeleteMessage i)
  show ?thesis
  proof (cases rule: delete_message_cases [of i s])
    case missing
    then show ?thesis using other by (simp add: DeleteMessage)
  next
    case (removed old)
    then show ?thesis using deleted [of i] by (simp add: DeleteMessage Map_get_Some_key)
  qed
qed

section \<open>Invariants of the handlers\<close>

lemma keyed_handle: "keyed s \<Longrightarrow> keyed (snd (handle clk r s))"
proof (cases r)
  case (PostMessages b)
  assume k: "keyed s"
  show ?thesis
  proof (cases rule: post_messages_cases [of clk b s])
    case (accept c)
    with k show ?thesis
      by (simp add: PostMessages post_messages_accept keyed_def distinct_Map_set list_all_Map_set)
  qed (use k PostMessages in simp_all)
next
  case (PutMessage i b)
  assume k: "keyed s"
  show ?thesis
  proof (cases rule: put_message_cases [of clk i b s])
    case (update c old)
    from k update(2) have "id_msg old = i"
      using list_all_Map_get [of "\<lambda>e. id_msg (snd e) = fst e" "messages s" i old]
      by (simp add: keyed_def)
    with k update show ?thesis
      by (simp add: PutMessage keyed_def distinct_Map_set list_all_Map_set)
  qed (use k PutMessage in simp_all)
next
  case (DeleteMessage i)
  assume k: "keyed s"
  then show ?thesis
    by (cases rule: delete_message_cases [of i s])
      (simp_all add: DeleteMessage keyed_def distinct_Map_delete list_all_Map_delete)
qed (simp_all add: get_root_def get_messages_def get_message_state)

lemma accepted_handle: "accepted s \<Longrightarrow> accepted (snd (handle clk r s))"
proof (cases r)
  case (PostMessages b)
  assume k: "accepted s"
  show ?thesis
  proof (cases rule: post_messages_cases [of clk b s])
    case (accept c)
    with k show ?thesis
      by (simp add: PostMessages post_messages_accept accepted_def list_all_Map_set
          content_rejected_iff)
  qed (use k PostMessages in simp_all)
next
  case (PutMessage i b)
  assume k: "accepted s"
  show ?thesis
  proof (cases rule: put_message_cases [of clk i b s])
    case (update c old)
    with k show ?thesis
      by (simp add: PutMessage accepted_def list_all_Map_set content_rejected_iff)
  qed (use k PutMessage in simp_all)
next
  case (DeleteMessage i)
  assume k: "accepted s"
  then show ?thesis
    by (cases rule: delete_message_cases [of i s])
      (simp_all add: DeleteMessage accepted_def list_all_Map_delete)
qed (simp_all add: get_root_def get_messages_def get_message_state)

lemma counted_handle: "counted s \<Longrightarrow> counted (snd (handle clk r s))"
proof (cases r)
  case (PostMessages b)
  assume k: "counted s"
  show ?thesis
  proof (cases rule: post_messages_cases [of clk b s])
    case (accept c)
    show ?thesis
    proof (cases "idCounter s < 2 ^ 53")
      case True
      with k have "list_all (\<lambda>e. counter_of (fst e) < idCounter s) (messages s)"
        by (simp add: counted_def)
      then have "list_all (\<lambda>e. counter_of (fst e) < Suc (idCounter s)) (messages s)"
        by (auto simp: list_all_iff less_Suc_eq)
      with True accept show ?thesis
        by (simp add: PostMessages post_messages_accept counted_def increment_def
            list_all_Map_set counter_of_new_id)
    next
      case False
      with accept show ?thesis
        by (simp add: PostMessages post_messages_accept counted_def increment_def)
    qed
  qed (use k PostMessages in simp_all)
next
  case (PutMessage i b)
  assume k: "counted s"
  show ?thesis
  proof (cases rule: put_message_cases [of clk i b s])
    case (update c old)
    show ?thesis
    proof (cases "idCounter s < 2 ^ 53")
      case True
      with k have all: "list_all (\<lambda>e. counter_of (fst e) < idCounter s) (messages s)"
        by (simp add: counted_def)
      from list_all_Map_get [OF all update(2)] have "counter_of i < idCounter s" by simp
      with all update show ?thesis
        by (simp add: PutMessage counted_def list_all_Map_set)
    next
      case False
      with update show ?thesis by (simp add: PutMessage counted_def)
    qed
  qed (use k PutMessage in simp_all)
next
  case (DeleteMessage i)
  assume k: "counted s"
  then show ?thesis
    by (cases rule: delete_message_cases [of i s])
      (simp_all add: DeleteMessage counted_def list_all_Map_delete)
qed (simp_all add: get_root_def get_messages_def get_message_state)

lemma final_invariant:
  assumes "\<And>clk r s. P s \<Longrightarrow> P (snd (handle clk r s))" and "P s"
  shows "P (final rs s)"
  using assms(2)
proof (induction rs arbitrary: s)
  case Nil
  then show ?case by simp
next
  case (Cons a rs)
  obtain clk r where a: "a = (clk, r)" by (cases a)
  from Cons.prems have "P (snd (handle clk r s))" by (rule assms(1))
  then have "P (final rs (snd (handle clk r s)))" by (rule Cons.IH)
  then show ?case by (simp add: a)
qed

lemma keyed_final: "keyed (final rs init_state)"
  by (rule final_invariant [of keyed, OF keyed_handle]) (simp_all add: keyed_def init_state_def)

lemma accepted_final: "accepted (final rs init_state)"
  by (rule final_invariant [of accepted, OF accepted_handle])
    (simp_all add: accepted_def init_state_def)

lemma counted_final: "counted (final rs init_state)"
  by (rule final_invariant [of counted, OF counted_handle])
    (simp_all add: counted_def init_state_def)

lemma new_id_fresh:
  assumes "counted s" and "idCounter s < 2 ^ 53"
  shows "new_id clk s \<notin> fst ` set (messages s)"
proof
  assume "new_id clk s \<in> fst ` set (messages s)"
  then obtain e where "e \<in> set (messages s)" and "fst e = new_id clk s" by auto
  with assms have "counter_of (new_id clk s) < idCounter s"
    by (auto simp: counted_def list_all_iff)
  then show False by (simp add: counter_of_new_id)
qed

lemma keyed_ids: "keyed s \<Longrightarrow> map id_msg (Map_values (messages s)) = map fst (messages s)"
  by (simp add: keyed_def Map_values_def list_all_iff)

section \<open>Runs\<close>

lemma final_append: "final (rs @ rs') s = final rs' (final rs s)"
  by (induction rs arbitrary: s) auto

lemma outcomes_append: "outcomes (rs @ rs') s = outcomes rs s @ outcomes rs' (final rs s)"
  by (induction rs arbitrary: s) auto

lemma count_status_Cons:
  "count_status n (out # outs) = (if has_status n out then 1 else 0) + count_status n outs"
  by (simp add: count_status_def)

lemma created_ids_Cons:
  "created_ids (out # outs) =
     (case created_id out of None \<Rightarrow> created_ids outs | Some i \<Rightarrow> i # created_ids outs)"
  by (simp add: created_ids_def List.map_filter_simps split: option.splits)

lemma absent_handle:
  assumes "Map_get i (messages s) = None"
    and "created_id (fst (handle clk r s)) \<noteq> Some i"
  shows "Map_get i (messages (snd (handle clk r s))) = None"
proof (cases r)
  case (PostMessages b)
  with assms post_messages_created [of clk b s] show ?thesis
    by (auto simp: Map_get_set)
next
  case (PutMessage j b)
  show ?thesis
  proof (cases rule: put_message_cases [of clk j b s])
    case (update c old)
    with assms(1) show ?thesis by (auto simp: PutMessage Map_get_set)
  qed (use assms(1) PutMessage in simp_all)
next
  case (DeleteMessage j)
  with assms(1) show ?thesis
    by (cases rule: delete_message_cases [of j s]) (simp_all add: Map_get_delete)
qed (use assms(1) in \<open>simp_all add: get_root_def get_messages_def get_message_state\<close>)

lemma absent_final:
  assumes "Map_get i (messages s) = None"
    and "i \<notin> set (created_ids (outcomes rs s))"
  shows "Map_get i (messages (final rs s)) = None"
  using assms
proof (induction rs arbitrary: s)
  case Nil
  then show ?case by simp
next
  case (Cons a rs)
  obtain clk r where a: "a = (clk, r)" by (cases a)
  from Cons.prems(2) have 1: "created_id (fst (handle clk r s)) \<noteq> Some i"
    and 2: "i \<notin> set (created_ids (outcomes rs (snd (handle clk r s))))"
    by (auto simp: a created_ids_def List.map_filter_simps split: option.splits)
  from Cons.prems(1) 1 have "Map_get i (messages (snd (handle clk r s))) = None"
    by (rule absent_handle)
  then have "Map_get i (messages (final rs (snd (handle clk r s)))) = None"
    using 2 by (rule Cons.IH)
  then show ?case by (simp add: a)
qed

lemma count_final:
  assumes "keyed s" and "counted s"
    and "idCounter s + count_status 201 (outcomes rs s) \<le> 2 ^ 53"
  shows "length (messages (final rs s)) + count_status 204 (outcomes rs s) =
         length (messages s) + count_status 201 (outcomes rs s)"
  using assms
proof (induction rs arbitrary: s)
  case Nil
  then show ?case by (simp add: count_status_def)
next
  case (Cons a rs)
  obtain clk r where a: "a = (clk, r)" by (cases a)
  define s1 where "s1 = snd (handle clk r s)"
  have k1: "keyed s1" and c1: "counted s1"
    using Cons.prems(1,2) by (simp_all add: s1_def keyed_handle counted_handle)
  show ?case
  proof (cases rule: handle_kinds [of clk r s])
    case (created m)
    from Cons.prems(3) created(1) have small: "idCounter s < 2 ^ 53"
      by (simp add: a count_status_Cons)
    then have fresh: "new_id clk s \<notin> fst ` set (messages s)"
      using Cons.prems(2) by (simp add: new_id_fresh)
    from created(3) small have cnt: "idCounter s1 = Suc (idCounter s)"
      by (simp add: s1_def increment_def)
    from created(3) fresh have len: "length (messages s1) = Suc (length (messages s))"
      by (simp add: s1_def Map_set_fresh)
    from Cons.prems(3) created(1) cnt
    have "idCounter s1 + count_status 201 (outcomes rs s1) \<le> 2 ^ 53"
      by (simp add: a count_status_Cons s1_def)
    from Cons.IH [OF k1 c1 this] len created(1) show ?thesis
      by (simp add: a count_status_Cons s1_def)
  next
    case (deleted j)
    from deleted(3) Cons.prems(1) deleted(1)
    have len: "Suc (length (messages s1)) = length (messages s)"
      by (simp add: s1_def keyed_def length_Map_delete)
    from deleted(3) have cnt: "idCounter s1 = idCounter s" by (simp add: s1_def)
    from Cons.prems(3) deleted(2) cnt
    have "idCounter s1 + count_status 201 (outcomes rs s1) \<le> 2 ^ 53"
      by (simp add: a count_status_Cons s1_def)
    from Cons.IH [OF k1 c1 this] len deleted(2) show ?thesis
      by (simp add: a count_status_Cons s1_def)
  next
    case other
    from other(5) have len: "length (messages s1) = length (messages s)"
      unfolding s1_def by (metis length_map)
    from Cons.prems(3) other
    have "idCounter s1 + count_status 201 (outcomes rs s1) \<le> 2 ^ 53"
      by (simp add: a count_status_Cons s1_def)
    from Cons.IH [OF k1 c1 this] len other show ?thesis
      by (simp add: a count_status_Cons s1_def)
  qed
qed

lemma keys_subseq:
  "subseq (map fst (messages (final rs s))) (map fst (messages s) @ created_ids (outcomes rs s))"
proof (induction rs arbitrary: s)
  case Nil
  then show ?case by (simp add: created_ids_def List.map_filter_simps)
next
  case (Cons a rs)
  obtain clk r where a: "a = (clk, r)" by (cases a)
  define s1 where "s1 = snd (handle clk r s)"
  define rest where "rest = created_ids (outcomes rs s1)"
  have IH: "subseq (map fst (messages (final rs s1))) (map fst (messages s1) @ rest)"
    unfolding rest_def by (rule Cons.IH)
  show ?case
  proof (cases rule: handle_kinds [of clk r s])
    case (created m)
    have "subseq (map fst (messages s1)) (map fst (messages s) @ [new_id clk s])"
      using created(3)
      by (cases "new_id clk s \<in> fst ` set (messages s)")
        (simp_all add: s1_def keys_Map_set_present Map_set_fresh prefix_imp_subseq)
    then have "subseq (map fst (messages s1) @ rest)
        ((map fst (messages s) @ [new_id clk s]) @ rest)"
      by (rule list_emb_append_mono) simp
    with IH have "subseq (map fst (messages (final rs s1)))
        ((map fst (messages s) @ [new_id clk s]) @ rest)"
      by (rule subseq_order.trans)
    with created(1,2) show ?thesis
      by (simp add: a created_ids_Cons s1_def rest_def)
  next
    case (deleted j)
    have "map fst (messages s1) = filter (\<lambda>k. k \<noteq> j) (map fst (messages s))"
      using deleted(3) by (simp add: s1_def Map_delete_def filter_map comp_def)
    then have "subseq (map fst (messages s1)) (map fst (messages s))"
      by simp
    then have "subseq (map fst (messages s1) @ rest) (map fst (messages s) @ rest)"
      by (rule list_emb_append_mono) simp
    with IH have "subseq (map fst (messages (final rs s1))) (map fst (messages s) @ rest)"
      by (rule subseq_order.trans)
    with deleted(2) show ?thesis
      by (simp add: a created_ids_Cons s1_def rest_def)
  next
    case other
    with IH show ?thesis
      by (simp add: a created_ids_Cons s1_def rest_def)
  qed
qed

lemma created_distinct:
  assumes "idCounter s + length (created_ids (outcomes rs s)) \<le> 2 ^ 53"
  shows "distinct (created_ids (outcomes rs s)) \<and>
         (\<forall>i \<in> set (created_ids (outcomes rs s)). idCounter s \<le> counter_of i)"
  using assms
proof (induction rs arbitrary: s)
  case Nil
  then show ?case by (simp add: created_ids_def List.map_filter_simps)
next
  case (Cons a rs)
  obtain clk r where a: "a = (clk, r)" by (cases a)
  define s1 where "s1 = snd (handle clk r s)"
  define rest where "rest = created_ids (outcomes rs s1)"
  show ?case
  proof (cases rule: handle_kinds [of clk r s])
    case (created m)
    then have ids: "created_ids (outcomes (a # rs) s) = new_id clk s # rest"
      by (simp add: a created_ids_Cons s1_def rest_def)
    with Cons.prems have small: "idCounter s < 2 ^ 53" by simp
    with created(3) have cnt: "idCounter s1 = Suc (idCounter s)"
      by (simp add: s1_def increment_def)
    with Cons.prems ids have "idCounter s1 + length (created_ids (outcomes rs s1)) \<le> 2 ^ 53"
      by (simp add: rest_def)
    from Cons.IH [OF this] cnt
    have d: "distinct rest" and lower: "\<forall>i \<in> set rest. Suc (idCounter s) \<le> counter_of i"
      by (simp_all add: rest_def)
    from lower have "new_id clk s \<notin> set rest"
      using counter_of_new_id [of clk s] by auto
    with d lower ids show ?thesis
      by (auto simp: counter_of_new_id)
  next
    case (deleted j)
    then have ids: "created_ids (outcomes (a # rs) s) = rest"
      by (simp add: a created_ids_Cons s1_def rest_def)
    from deleted(3) have cnt: "idCounter s1 = idCounter s" by (simp add: s1_def)
    with Cons.prems ids have "idCounter s1 + length (created_ids (outcomes rs s1)) \<le> 2 ^ 53"
      by (simp add: rest_def)
    from Cons.IH [OF this] cnt ids show ?thesis by (simp add: rest_def)
  next
    case other
    then have ids: "created_ids (outcomes (a # rs) s) = rest"
      by (simp add: a created_ids_Cons s1_def rest_def)
    from other(4) have cnt: "idCounter s1 = idCounter s" by (simp add: s1_def)
    with Cons.prems ids have "idCounter s1 + length (created_ids (outcomes rs s1)) \<le> 2 ^ 53"
      by (simp add: rest_def)
    from Cons.IH [OF this] cnt ids show ?thesis by (simp add: rest_def)
  qed
qed

section \<open>The writing handlers on a request that carries a body\<close>

text \<open>
  When the destructuring yields a content \<open>c\<close>, the guard alone decides between the 400
  reply and the rest of the handler.
\<close>

lemma put_message_with_body:
  assumes "destructure_content b = Inr c"
  shows "(fails_validation c \<longrightarrow>
            put_message clk i b s =
              (Inr \<lparr>statusCode = 400, body = ErrorBody content_required\<rparr>, s)) \<and>
         (\<not> fails_validation c \<and> Map_get i (messages s) = None \<longrightarrow>
            put_message clk i b s = (Inr \<lparr>statusCode = 404, body = ErrorBody not_found\<rparr>, s))"
  using assms by (simp add: put_message_def content_rejected_iff)

lemma validation_reply_with_body:
  assumes "destructure_content b = Inr c"
  shows "(has_status 400 (fst (post_messages clk b s)) \<longleftrightarrow> fails_validation c) \<and>
         (has_status 400 (fst (put_message clk i b s)) \<longleftrightarrow> fails_validation c) \<and>
         (fails_validation c \<longrightarrow>
            fst (post_messages clk b s) =
              Inr \<lparr>statusCode = 400, body = ErrorBody content_required\<rparr> \<and>
            fst (put_message clk i b s) =
              Inr \<lparr>statusCode = 400, body = ErrorBody content_required\<rparr>) \<and>
         content_required \<noteq> []"
  using assms
  by (simp add: post_messages_def put_message_def content_rejected_iff Let_def
      content_required_nonempty split: option.splits)

section \<open>The example run\<close>

lemma new_id0: "new_id clock0 init_state = id0"
  by (simp add: new_id_def clock0_def init_state_def id0_def toString_int_def
      toString_nat.simps digit_def ascii_def)

lemma new_id1: "idCounter s = Suc 0 \<Longrightarrow> new_id clock0 s = id1"
  by (simp add: new_id_def clock0_def id1_def toString_int_def toString_nat.simps digit_def
      ascii_def)

lemma id0_neq_id1: "id0 \<noteq> id1"
  by (simp add: id0_def id1_def ascii_def)

lemma hello_valid: "\<not> fails_validation (JStr hello)"
  by (simp add: fails_validation_def trim_def hello_def ascii_def is_whitespace_def)

lemma blank_invalid: "fails_validation (JStr blank)"
  by (simp add: fails_validation_def trim_def blank_def is_whitespace_def)

lemma post_hello:
  "post_messages clk (with_content (JStr hello)) s =
    (Inr \<lparr>statusCode = 201,
          body = MessageBody \<lparr>id_msg = new_id clk s, content = JStr hello,
            createdAt = toISOString clk, updatedAt = toISOString clk\<rparr>\<rparr>,
     \<lparr>messages = Map_set (new_id clk s)
        \<lparr>id_msg = new_id clk s, content = JStr hello, createdAt = toISOString clk,
         updatedAt = toISOString clk\<rparr> (messages s),
      idCounter = increment (idCounter s)\<rparr>)"
  by (rule post_messages_accept) (simp_all add: with_content_def hello_valid)

lemma state1_eq: "state1 = \<lparr>messages = [(id0, message1)], idCounter = 1\<rparr>"
proof -
  have "\<not> content_rejected (JStr hello)"
    by (simp add: content_rejected_def trim_def hello_def ascii_def is_whitespace_def)
  then show ?thesis
    by (simp add: state1_def post_messages_def with_content_def new_id0 message1_def
        increment_def Let_def) (simp add: init_state_def)
qed

lemma create_first:
  "post_messages clock0 (with_content (JStr hello)) init_state =
     (Inr \<lparr>statusCode = 201, body = MessageBody message1\<rparr>, state1)"
proof -
  have "fst (post_messages clock0 (with_content (JStr hello)) init_state) =
      Inr \<lparr>statusCode = 201, body = MessageBody message1\<rparr>"
    by (simp add: post_hello new_id0 message1_def)
  moreover have "snd (post_messages clock0 (with_content (JStr hello)) init_state) = state1"
    by (simp add: state1_def)
  ultimately show ?thesis by (simp add: prod_eq_iff)
qed

lemma create_second:
  "post_messages clock0 (with_content (JStr hello)) state1 =
     (Inr \<lparr>statusCode = 201, body = MessageBody message2\<rparr>,
      \<lparr>messages = [(id0, message1), (id1, message2)], idCounter = 2\<rparr>)"
proof -
  have "new_id clock0 state1 = id1"
    by (rule new_id1) (simp add: state1_eq)
  then show ?thesis
    using id0_neq_id1 by (simp add: post_hello message2_def) (simp add: state1_eq increment_def)
qed

lemma outcomes_two_creates:
  "outcomes two_creates init_state =
     [Inr \<lparr>statusCode = 201, body = MessageBody message1\<rparr>,
      Inr \<lparr>statusCode = 201, body = MessageBody message2\<rparr>]"
  by (simp add: two_creates_def create_first create_second)

lemma final_two_creates:
  "final two_creates init_state =
     \<lparr>messages = [(id0, message1), (id1, message2)], idCounter = 2\<rparr>"
  by (simp add: two_creates_def create_first create_second)

lemma delete_state1: "snd (delete_message id0 state1) = \<lparr>messages = [], idCounter = 1\<rparr>"
  by (simp add: delete_message_def state1_eq Map_get_def Map_delete_def)

lemma delete_id0:
  "delete_message id0 \<lparr>messages = [(id0, message1), (id1, message2)], idCounter = 2\<rparr> =
     (Inr \<lparr>statusCode = 204, body = Empty\<rparr>, \<lparr>messages = [(id1, message2)], idCounter = 2\<rparr>)"
  using id0_neq_id1 by (auto simp: delete_message_def Map_get_def Map_delete_def)

lemma outcomes_create_create_delete:
  "outcomes create_create_delete init_state =
     [Inr \<lparr>statusCode = 201, body = MessageBody message1\<rparr>,
      Inr \<lparr>statusCode = 201, body = MessageBody message2\<rparr>,
      Inr \<lparr>statusCode = 204, body = Empty\<rparr>]"
  by (simp add: create_create_delete_def outcomes_append outcomes_two_creates
      final_two_creates delete_id0)

lemma final_create_create_delete:
  "final create_create_delete init_state = \<lparr>messages = [(id1, message2)], idCounter = 2\<rparr>"
  by (simp add: create_create_delete_def final_append final_two_creates delete_id0)

section \<open>Create\<close>

text \<open>
  C1. In a state the process can reach, while the counter is below \<open>2^53\<close> (where
  \<open>idCounter++\<close> counts exactly), a create whose content is a string that is not empty
  after trimming replies 201 with a message that has the content as it was given,
  untrimmed, and the one timestamp read from the clock as both \<open>createdAt\<close> and
  \<open>updatedAt\<close>. Its id was not a key of the store, and the store after the request is the
  store before it with this one entry added at the end.
\<close>

theorem create_adds_one_entry:
  assumes "idCounter (final rs init_state) < 2 ^ 53"
    and "destructure_content b = Inr (JStr str)"
    and "trim str \<noteq> []"
  shows "\<exists>m s'.
           post_messages clk b (final rs init_state) =
             (Inr \<lparr>statusCode = 201, body = MessageBody m\<rparr>, s') \<and>
           content m = JStr str \<and>
           createdAt m = toISOString clk \<and> updatedAt m = toISOString clk \<and>
           Map_get (id_msg m) (messages (final rs init_state)) = None \<and>
           messages s' = messages (final rs init_state) @ [(id_msg m, m)]"
proof -
  define s where "s = final rs init_state"
  define m where "m = \<lparr>id_msg = new_id clk s, content = JStr str,
    createdAt = toISOString clk, updatedAt = toISOString clk\<rparr>"
  define s' where "s' = \<lparr>messages = Map_set (new_id clk s) m (messages s),
    idCounter = increment (idCounter s)\<rparr>"
  have valid: "\<not> fails_validation (JStr str)"
    using assms(3) by (simp add: fails_validation_def)
  have fresh: "new_id clk s \<notin> fst ` set (messages s)"
    using counted_final [of rs] assms(1) unfolding s_def by (rule new_id_fresh)
  have "post_messages clk b s = (Inr \<lparr>statusCode = 201, body = MessageBody m\<rparr>, s')"
    using post_messages_accept [OF assms(2) valid, of clk s] by (simp add: m_def s'_def)
  moreover have "content m = JStr str" "createdAt m = toISOString clk"
    "updatedAt m = toISOString clk"
    by (simp_all add: m_def)
  moreover have "Map_get (id_msg m) (messages s) = None"
    using fresh by (simp add: m_def Map_get_None)
  moreover have "messages s' = messages s @ [(id_msg m, m)]"
    using fresh by (simp add: s'_def Map_set_fresh) (simp add: m_def)
  ultimately show ?thesis unfolding s_def by blast
qed

theorem create_adds_one_entry_witness:
  "idCounter (final [(clock0, PostMessages (with_content (JStr hello)))] init_state) < 2 ^ 53 \<and>
   destructure_content (with_content (JStr hello)) = Inr (JStr hello) \<and>
   trim hello \<noteq> [] \<and> trim hello \<noteq> hello \<and>
   (\<exists>m s'.
      post_messages clock1 (with_content (JStr hello)) state1 =
        (Inr \<lparr>statusCode = 201, body = MessageBody m\<rparr>, s') \<and>
      content m = JStr hello \<and>
      createdAt m = toISOString clock1 \<and> updatedAt m = toISOString clock1 \<and>
      Map_get (id_msg m) (messages state1) = None \<and>
      messages s' = messages state1 @ [(id_msg m, m)])"
proof -
  have c: "idCounter (final [(clock0, PostMessages (with_content (JStr hello)))] init_state)
      < 2 ^ 53"
    using state1_eq by (simp add: state1_def)
  have b: "destructure_content (with_content (JStr hello)) = Inr (JStr hello)"
    by (simp add: with_content_def)
  have t: "trim hello \<noteq> []" "trim hello \<noteq> hello"
    by (simp_all add: trim_def hello_def ascii_def is_whitespace_def)
  show ?thesis
    using create_adds_one_entry [OF c b t(1), of clock1] c b t
    by (simp add: state1_def)
qed

section \<open>Update: validation before lookup\<close>

text \<open>
  C2 has every update whose content is absent answered with the 400 validation reply,
  whether or not a message with the id exists. An update that carries no body has no
  content, and on an id that is in the store the handler throws a TypeError at the
  destructuring and builds no reply, while the same update with the body \<open>{}\<close>, whose
  content is absent as well, gets the 400 reply and one with blank content too.
\<close>

theorem update_without_body:
  "Map_get id0 (messages state1) = Some message1 \<and>
   fails_validation JUndefined \<and>
   put_message clock1 id0 JUndefined state1 = (Inl TypeError, state1) \<and>
   put_message clock1 id0 (JObj []) state1 =
     (Inr \<lparr>statusCode = 400, body = ErrorBody content_required\<rparr>, state1) \<and>
   put_message clock1 id0 (with_content (JStr blank)) state1 =
     (Inr \<lparr>statusCode = 400, body = ErrorBody content_required\<rparr>, state1)"
proof -
  have "Map_get id0 (messages state1) = Some message1"
    by (simp add: state1_eq Map_get_def)
  moreover have "fails_validation JUndefined"
    by (simp add: fails_validation_def)
  moreover have "put_message clock1 id0 JUndefined state1 = (Inl TypeError, state1)"
    by (simp add: put_message_def)
  moreover have "put_message clock1 id0 (JObj []) state1 =
      (Inr \<lparr>statusCode = 400, body = ErrorBody content_required\<rparr>, state1)"
    by (simp add: put_message_def content_rejected_def)
  moreover have "put_message clock1 id0 (with_content (JStr blank)) state1 =
      (Inr \<lparr>statusCode = 400, body = ErrorBody content_required\<rparr>, state1)"
    using blank_invalid by (simp add: put_message_def with_content_def content_rejected_iff)
  ultimately show ?thesis by simp
qed

theorem update_without_body_witness:
  "fails_validation JUndefined \<and>
   fst (put_message clock1 id0 JUndefined state1) \<noteq>
     Inr \<lparr>statusCode = 400, body = ErrorBody content_required\<rparr> \<and>
   snd (put_message clock1 id0 JUndefined state1) = state1"
  using update_without_body by simp

section \<open>Update: what changes and what stays\<close>

text \<open>
  C3. An update of a message that is in the store, with valid content, replies 200 with
  the message it stores under the same key: the new content, the \<open>updatedAt\<close> just read
  from the clock, and the \<open>id\<close> and \<open>createdAt\<close> the stored message had. No other entry,
  the order of the keys and the counter do not change.
\<close>

theorem update_keeps_identity:
  assumes "Map_get i (messages s) = Some old"
    and "destructure_content b = Inr c"
    and "\<not> fails_validation c"
  shows "\<exists>new s'.
           put_message clk i b s = (Inr \<lparr>statusCode = 200, body = MessageBody new\<rparr>, s') \<and>
           Map_get i (messages s') = Some new \<and>
           content new = c \<and> updatedAt new = toISOString clk \<and>
           id_msg new = id_msg old \<and> createdAt new = createdAt old \<and>
           (\<forall>k. k \<noteq> i \<longrightarrow> Map_get k (messages s') = Map_get k (messages s)) \<and>
           map fst (messages s') = map fst (messages s) \<and>
           idCounter s' = idCounter s"
proof -
  define new where "new = old\<lparr>content := c, updatedAt := toISOString clk\<rparr>"
  define s' where "s' = s\<lparr>messages := Map_set i new (messages s)\<rparr>"
  have "put_message clk i b s = (Inr \<lparr>statusCode = 200, body = MessageBody new\<rparr>, s')"
    using assms by (simp add: put_message_def content_rejected_iff new_def s'_def Let_def)
  moreover have "Map_get i (messages s') = Some new"
    by (simp add: s'_def Map_get_set)
  moreover have "content new = c" "updatedAt new = toISOString clk"
    "id_msg new = id_msg old" "createdAt new = createdAt old"
    by (simp_all add: new_def)
  moreover have "\<forall>k. k \<noteq> i \<longrightarrow> Map_get k (messages s') = Map_get k (messages s)"
    by (simp add: s'_def Map_get_set)
  moreover have "map fst (messages s') = map fst (messages s)"
    using assms(1) by (simp add: s'_def keys_Map_set_present Map_get_Some_key)
  moreover have "idCounter s' = idCounter s"
    by (simp add: s'_def)
  ultimately show ?thesis by blast
qed

theorem update_keeps_identity_witness:
  "Map_get id0 (messages state1) = Some message1 \<and>
   destructure_content (with_content (JStr (ascii ''Updated''))) = Inr (JStr (ascii ''Updated'')) \<and>
   \<not> fails_validation (JStr (ascii ''Updated'')) \<and>
   (\<exists>new s'.
      put_message clock1 id0 (with_content (JStr (ascii ''Updated''))) state1 =
        (Inr \<lparr>statusCode = 200, body = MessageBody new\<rparr>, s') \<and>
      Map_get id0 (messages s') = Some new \<and>
      content new = JStr (ascii ''Updated'') \<and> updatedAt new = toISOString clock1 \<and>
      id_msg new = id_msg message1 \<and> createdAt new = createdAt message1)"
proof -
  have present: "Map_get id0 (messages state1) = Some message1"
    by (simp add: state1_eq Map_get_def)
  have b: "destructure_content (with_content (JStr (ascii ''Updated''))) =
      Inr (JStr (ascii ''Updated''))"
    by (simp add: with_content_def)
  have v: "\<not> fails_validation (JStr (ascii ''Updated''))"
    by (simp add: fails_validation_def trim_def ascii_def is_whitespace_def)
  show ?thesis
    using update_keeps_identity [OF present b v, of clock1] present b v by blast
qed

section \<open>Delete\<close>

text \<open>
  C4, with the update as the handler treats it. A delete of an id that is in the store
  replies 204 with an empty body and removes the entry, leaving every other entry as it
  was. After any further requests, none of which is a create that replied with this id,
  a get and a delete of the id reply 404, and so does an update of the id whose body
  carries valid content; an update of the id that carries a body whose content fails
  validation replies 400, since the content is checked before the id is looked up.
\<close>

theorem delete_then_not_found:
  assumes "Map_get i (messages s) = Some m"
    and "i \<notin> set (created_ids (outcomes rs (snd (delete_message i s))))"
  shows "fst (delete_message i s) = Inr \<lparr>statusCode = 204, body = Empty\<rparr> \<and>
         Map_get i (messages (snd (delete_message i s))) = None \<and>
         (\<forall>k. k \<noteq> i \<longrightarrow>
            Map_get k (messages (snd (delete_message i s))) = Map_get k (messages s)) \<and>
         fst (get_message i (final rs (snd (delete_message i s)))) =
           Inr \<lparr>statusCode = 404, body = ErrorBody not_found\<rparr> \<and>
         fst (delete_message i (final rs (snd (delete_message i s)))) =
           Inr \<lparr>statusCode = 404, body = ErrorBody not_found\<rparr> \<and>
         (destructure_content b = Inr c \<and> \<not> fails_validation c \<longrightarrow>
            fst (put_message clk i b (final rs (snd (delete_message i s)))) =
              Inr \<lparr>statusCode = 404, body = ErrorBody not_found\<rparr>) \<and>
         (destructure_content b = Inr c \<and> fails_validation c \<longrightarrow>
            fst (put_message clk i b (final rs (snd (delete_message i s)))) =
              Inr \<lparr>statusCode = 400, body = ErrorBody content_required\<rparr>)"
proof -
  define s1 where "s1 = snd (delete_message i s)"
  define s2 where "s2 = final rs s1"
  have d: "delete_message i s =
      (Inr \<lparr>statusCode = 204, body = Empty\<rparr>, s\<lparr>messages := Map_delete i (messages s)\<rparr>)"
    using assms(1) by (simp add: delete_message_def)
  then have gone: "Map_get i (messages s1) = None"
    and others: "\<forall>k. k \<noteq> i \<longrightarrow> Map_get k (messages s1) = Map_get k (messages s)"
    by (simp_all add: s1_def Map_get_delete)
  from gone assms(2) have later: "Map_get i (messages s2) = None"
    unfolding s2_def s1_def by (rule absent_final)
  have "fst (get_message i s2) = Inr \<lparr>statusCode = 404, body = ErrorBody not_found\<rparr>"
    and "fst (delete_message i s2) = Inr \<lparr>statusCode = 404, body = ErrorBody not_found\<rparr>"
    using later by (simp_all add: get_message_def delete_message_def)
  moreover have "destructure_content b = Inr c \<and> \<not> fails_validation c \<longrightarrow>
      fst (put_message clk i b s2) = Inr \<lparr>statusCode = 404, body = ErrorBody not_found\<rparr>"
    using later by (simp add: put_message_def content_rejected_iff)
  moreover have "destructure_content b = Inr c \<and> fails_validation c \<longrightarrow>
      fst (put_message clk i b s2) =
        Inr \<lparr>statusCode = 400, body = ErrorBody content_required\<rparr>"
    by (simp add: put_message_def content_rejected_iff)
  ultimately show ?thesis
    using d gone others unfolding s2_def s1_def by simp
qed

theorem delete_then_not_found_witness:
  "Map_get id0 (messages state1) = Some message1 \<and>
   created_ids (outcomes [(clock0, PostMessages (with_content (JStr hello)))]
     (snd (delete_message id0 state1))) = [id1] \<and>
   id0 \<notin> set (created_ids (outcomes [(clock0, PostMessages (with_content (JStr hello)))]
     (snd (delete_message id0 state1)))) \<and>
   destructure_content (with_content (JStr hello)) = Inr (JStr hello) \<and>
   \<not> fails_validation (JStr hello) \<and>
   fst (delete_message id0 state1) = Inr \<lparr>statusCode = 204, body = Empty\<rparr> \<and>
   fst (get_message id0 (final [(clock0, PostMessages (with_content (JStr hello)))]
         (snd (delete_message id0 state1)))) =
     Inr \<lparr>statusCode = 404, body = ErrorBody not_found\<rparr> \<and>
   fst (delete_message id0 (final [(clock0, PostMessages (with_content (JStr hello)))]
         (snd (delete_message id0 state1)))) =
     Inr \<lparr>statusCode = 404, body = ErrorBody not_found\<rparr> \<and>
   fst (put_message clock1 id0 (with_content (JStr hello))
         (final [(clock0, PostMessages (with_content (JStr hello)))]
           (snd (delete_message id0 state1)))) =
     Inr \<lparr>statusCode = 404, body = ErrorBody not_found\<rparr>"
proof -
  have present: "Map_get id0 (messages state1) = Some message1"
    by (simp add: state1_eq Map_get_def)
  have "new_id clock0 (snd (delete_message id0 state1)) = id1"
    by (rule new_id1) (simp add: delete_state1)
  then have ids: "created_ids (outcomes [(clock0, PostMessages (with_content (JStr hello)))]
      (snd (delete_message id0 state1))) = [id1]"
    by (simp add: created_ids_def List.map_filter_simps post_hello)
  then have none: "id0 \<notin> set (created_ids
      (outcomes [(clock0, PostMessages (with_content (JStr hello)))]
        (snd (delete_message id0 state1))))"
    using id0_neq_id1 by simp
  have b: "destructure_content (with_content (JStr hello)) = Inr (JStr hello)"
    by (simp add: with_content_def)
  show ?thesis
    using delete_then_not_found [OF present none, of "with_content (JStr hello)" "JStr hello"
        clock1] present ids none b hello_valid
    by simp
qed

text \<open>
  C4 as stated has every later update of the deleted id reply 404. An update with empty
  content replies 400.
\<close>

theorem update_after_delete_counterexample:
  "Map_get id0 (messages state1) = Some message1 \<and>
   fst (delete_message id0 state1) = Inr \<lparr>statusCode = 204, body = Empty\<rparr> \<and>
   fst (get_message id0 (snd (delete_message id0 state1))) =
     Inr \<lparr>statusCode = 404, body = ErrorBody not_found\<rparr> \<and>
   fst (put_message clock1 id0 (with_content (JStr [])) (snd (delete_message id0 state1))) =
     Inr \<lparr>statusCode = 400, body = ErrorBody content_required\<rparr>"
  by (simp add: delete_state1 get_message_def put_message_def with_content_def
      content_rejected_def Map_get_def)
    (simp add: delete_message_def state1_eq Map_get_def)

section \<open>When the validation reply is given\<close>

text \<open>
  C5 has the 400 validation reply given for every create or update whose content is
  missing. A create that carries no body has no content, and the handler throws a
  TypeError at the destructuring: no reply with status 400 is built. The same create
  with the body \<open>{}\<close>, whose content is missing as well, and one whose content is the
  number 7 get the 400 reply with the error string, which is not empty.
\<close>

theorem create_without_body:
  "fails_validation JUndefined \<and>
   post_messages clock0 JUndefined init_state = (Inl TypeError, init_state) \<and>
   \<not> has_status 400 (fst (post_messages clock0 JUndefined init_state)) \<and>
   post_messages clock0 (JObj []) init_state =
     (Inr \<lparr>statusCode = 400, body = ErrorBody content_required\<rparr>, init_state) \<and>
   post_messages clock0 (with_content (JNum 7)) init_state =
     (Inr \<lparr>statusCode = 400, body = ErrorBody content_required\<rparr>, init_state) \<and>
   content_required \<noteq> []"
proof -
  have "fails_validation JUndefined"
    by (simp add: fails_validation_def)
  moreover have "post_messages clock0 JUndefined init_state = (Inl TypeError, init_state)"
    by (simp add: post_messages_def)
  moreover have "post_messages clock0 (JObj []) init_state =
      (Inr \<lparr>statusCode = 400, body = ErrorBody content_required\<rparr>, init_state)"
    by (simp add: post_messages_def content_rejected_def)
  moreover have "post_messages clock0 (with_content (JNum 7)) init_state =
      (Inr \<lparr>statusCode = 400, body = ErrorBody content_required\<rparr>, init_state)"
    by (simp add: post_messages_def with_content_def content_rejected_def)
  ultimately show ?thesis by (simp add: content_required_nonempty)
qed

theorem create_without_body_witness:
  "fails_validation JUndefined \<and>
   fst (post_messages clock0 JUndefined init_state) \<noteq>
     Inr \<lparr>statusCode = 400, body = ErrorBody content_required\<rparr> \<and>
   snd (post_messages clock0 JUndefined init_state) = init_state"
  using create_without_body by simp

section \<open>List\<close>

text \<open>
  C6. A list request replies 200 in every state and leaves the state as it is, with an
  empty sequence when the store is empty. In a state the process can reach it returns
  exactly the messages in the store, each once, in the order in which their ids were
  created. While the run has at most \<open>2^53\<close> successful creates (the range where
  \<open>idCounter++\<close> counts exactly), after \<open>N\<close> successful creates and \<open>M\<close> successful deletes
  it returns \<open>N - M\<close> messages, and \<open>M \<le> N\<close>.
\<close>

theorem list_returns_store:
  "has_status 200 (fst (get_messages s)) \<and> snd (get_messages s) = s \<and>
   (messages s = [] \<longrightarrow> fst (get_messages s) = Inr \<lparr>statusCode = 200, body = ListBody []\<rparr>) \<and>
   (\<exists>ms. fst (get_messages (final rs init_state)) =
            Inr \<lparr>statusCode = 200, body = ListBody ms\<rparr> \<and>
      (\<forall>m. m \<in> set ms \<longleftrightarrow> Map_get (id_msg m) (messages (final rs init_state)) = Some m) \<and>
      distinct (map id_msg ms) \<and>
      subseq (map id_msg ms) (created_ids (outcomes rs init_state)) \<and>
      (count_status 201 (outcomes rs init_state) \<le> 2 ^ 53 \<longrightarrow>
         count_status 204 (outcomes rs init_state) \<le> count_status 201 (outcomes rs init_state) \<and>
         length ms =
           count_status 201 (outcomes rs init_state) - count_status 204 (outcomes rs init_state)))"
proof -
  define t where "t = final rs init_state"
  define ms where "ms = Map_values (messages t)"
  have k: "keyed t" unfolding t_def by (rule keyed_final)
  have ids: "map id_msg ms = map fst (messages t)"
    using k unfolding ms_def by (rule keyed_ids)
  have reply: "fst (get_messages t) = Inr \<lparr>statusCode = 200, body = ListBody ms\<rparr>"
    by (simp add: get_messages_def ms_def)
  have exact: "m \<in> set ms \<longleftrightarrow> Map_get (id_msg m) (messages t) = Some m" for m
  proof
    assume "m \<in> set ms"
    then obtain j where j: "(j, m) \<in> set (messages t)"
      by (auto simp: ms_def Map_values_def)
    with k have "id_msg m = j" by (auto simp: keyed_def list_all_iff)
    with j k show "Map_get (id_msg m) (messages t) = Some m"
      by (simp add: Map_get_def keyed_def)
  next
    assume "Map_get (id_msg m) (messages t) = Some m"
    then have "(id_msg m, m) \<in> set (messages t)" by (rule Map_get_in_set)
    then show "m \<in> set ms" by (force simp: ms_def Map_values_def)
  qed
  have d: "distinct (map id_msg ms)"
    using k by (simp add: ids keyed_def)
  have order: "subseq (map id_msg ms) (created_ids (outcomes rs init_state))"
    using keys_subseq [of rs init_state] by (simp add: ids t_def) (simp add: init_state_def)
  have count: "count_status 204 (outcomes rs init_state)
        \<le> count_status 201 (outcomes rs init_state) \<and>
      length ms = count_status 201 (outcomes rs init_state)
        - count_status 204 (outcomes rs init_state)"
    if "count_status 201 (outcomes rs init_state) \<le> 2 ^ 53"
  proof -
    have "keyed init_state" "counted init_state"
      by (simp_all add: keyed_def counted_def init_state_def)
    moreover from that
    have "idCounter init_state + count_status 201 (outcomes rs init_state) \<le> 2 ^ 53"
      by (simp add: init_state_def)
    ultimately have "length (messages t) + count_status 204 (outcomes rs init_state) =
        length (messages init_state) + count_status 201 (outcomes rs init_state)"
      unfolding t_def by (rule count_final)
    then show ?thesis by (simp add: ms_def Map_values_def init_state_def)
  qed
  have "has_status 200 (fst (get_messages s))" "snd (get_messages s) = s"
    "messages s = [] \<longrightarrow> fst (get_messages s) = Inr \<lparr>statusCode = 200, body = ListBody []\<rparr>"
    by (simp_all add: get_messages_def Map_values_def)
  with reply exact d order count show ?thesis
    unfolding t_def by blast
qed

theorem list_returns_store_witness:
  "count_status 201 (outcomes create_create_delete init_state) = 2 \<and>
   count_status 204 (outcomes create_create_delete init_state) = 1 \<and>
   created_ids (outcomes create_create_delete init_state) = [id0, id1] \<and>
   fst (get_messages (final create_create_delete init_state)) =
     Inr \<lparr>statusCode = 200, body = ListBody [message2]\<rparr> \<and>
   fst (get_messages (final two_creates init_state)) =
     Inr \<lparr>statusCode = 200, body = ListBody [message1, message2]\<rparr> \<and>
   fst (get_messages init_state) = Inr \<lparr>statusCode = 200, body = ListBody []\<rparr> \<and>
   (\<exists>ms. fst (get_messages (final create_create_delete init_state)) =
            Inr \<lparr>statusCode = 200, body = ListBody ms\<rparr> \<and>
      subseq (map id_msg ms) (created_ids (outcomes create_create_delete init_state)) \<and>
      length ms = count_status 201 (outcomes create_create_delete init_state)
        - count_status 204 (outcomes create_create_delete init_state))"
proof -
  have n: "count_status 201 (outcomes create_create_delete init_state) = 2"
    and m: "count_status 204 (outcomes create_create_delete init_state) = 1"
    and c: "created_ids (outcomes create_create_delete init_state) = [id0, id1]"
    by (simp_all add: outcomes_create_create_delete count_status_def created_ids_Cons
        created_ids_def message1_def message2_def List.map_filter_simps)
  have l: "fst (get_messages (final create_create_delete init_state)) =
      Inr \<lparr>statusCode = 200, body = ListBody [message2]\<rparr>"
    "fst (get_messages (final two_creates init_state)) =
      Inr \<lparr>statusCode = 200, body = ListBody [message1, message2]\<rparr>"
    "fst (get_messages init_state) = Inr \<lparr>statusCode = 200, body = ListBody []\<rparr>"
    by (simp_all add: final_create_create_delete final_two_creates get_messages_def
        Map_values_def) (simp add: init_state_def)
  have bound: "count_status 201 (outcomes create_create_delete init_state) \<le> 2 ^ 53"
    by (simp add: n)
  from list_returns_store [of init_state create_create_delete] bound
  have "\<exists>ms. fst (get_messages (final create_create_delete init_state)) =
            Inr \<lparr>statusCode = 200, body = ListBody ms\<rparr> \<and>
      subseq (map id_msg ms) (created_ids (outcomes create_create_delete init_state)) \<and>
      length ms = count_status 201 (outcomes create_create_delete init_state)
        - count_status 204 (outcomes create_create_delete init_state)"
    by blast
  with n m c l show ?thesis by blast
qed

section \<open>Failures leave the state alone\<close>

text \<open>
  C7. Whenever a handler replies 400 or 404, the state after the request is the state
  before it: the store and the counter are untouched. The same holds when the handler
  throws. In particular an update whose content is empty or only white space, on an id
  that is in the store, replies 400 and the id still maps to the same message.
\<close>

theorem failure_leaves_state:
  "(fst (handle clk r s) = Inr rep \<and> (statusCode rep = 400 \<or> statusCode rep = 404) \<longrightarrow>
      snd (handle clk r s) = s) \<and>
   (fst (handle clk r s) = Inl e \<longrightarrow> snd (handle clk r s) = s) \<and>
   (Map_get i (messages s) = Some m \<and> (\<forall>u \<in> set str. is_whitespace u) \<longrightarrow>
      has_status 400 (fst (put_message clk i (with_content (JStr str)) s)) \<and>
      snd (put_message clk i (with_content (JStr str)) s) = s \<and>
      Map_get i (messages (snd (put_message clk i (with_content (JStr str)) s))) = Some m)"
proof -
  have "fails_validation (JStr str)" if "\<forall>u \<in> set str. is_whitespace u"
    using that by (simp add: fails_validation_def trim_empty)
  then have 3: "Map_get i (messages s) = Some m \<and> (\<forall>u \<in> set str. is_whitespace u) \<longrightarrow>
      has_status 400 (fst (put_message clk i (with_content (JStr str)) s)) \<and>
      snd (put_message clk i (with_content (JStr str)) s) = s \<and>
      Map_get i (messages (snd (put_message clk i (with_content (JStr str)) s))) = Some m"
    by (simp add: put_message_def with_content_def content_rejected_iff)
  have 1: "fst (handle clk r s) = Inr rep \<and> (statusCode rep = 400 \<or> statusCode rep = 404) \<longrightarrow>
      snd (handle clk r s) = s"
    by (cases r)
      (auto simp: get_root_def post_messages_def get_messages_def get_message_def
        put_message_def delete_message_def Let_def split: sum.splits option.splits if_splits)
  have 2: "fst (handle clk r s) = Inl e \<longrightarrow> snd (handle clk r s) = s"
    by (cases r)
      (auto simp: get_root_def post_messages_def get_messages_def get_message_def
        put_message_def delete_message_def Let_def split: sum.splits option.splits if_splits)
  from 1 2 3 show ?thesis by blast
qed

theorem failure_leaves_state_witness:
  "fst (handle clock1 (GetMessage (ascii ''nonexistent'')) state1) =
     Inr \<lparr>statusCode = 404, body = ErrorBody not_found\<rparr> \<and>
   snd (handle clock1 (GetMessage (ascii ''nonexistent'')) state1) = state1 \<and>
   Map_get id0 (messages state1) = Some message1 \<and>
   has_status 400 (fst (put_message clock1 id0 (with_content (JStr blank)) state1)) \<and>
   Map_get id0 (messages (snd (put_message clock1 id0 (with_content (JStr blank)) state1))) =
     Some message1"
proof -
  have r: "fst (handle clock1 (GetMessage (ascii ''nonexistent'')) state1) =
      Inr \<lparr>statusCode = 404, body = ErrorBody not_found\<rparr>"
    by (simp add: get_message_def state1_eq Map_get_def id0_def ascii_def)
  have present: "Map_get id0 (messages state1) = Some message1"
    by (simp add: state1_eq Map_get_def)
  have ws: "\<forall>u \<in> set blank. is_whitespace u"
    by (simp add: blank_def is_whitespace_def)
  show ?thesis
    using failure_leaves_state [of clock1 "GetMessage (ascii ''nonexistent'')" state1
        "\<lparr>statusCode = 404, body = ErrorBody not_found\<rparr>" TypeError id0 message1 blank]
      r present ws
    by simp
qed

section \<open>Unique ids\<close>

text \<open>
  C8. Two ids made with different counters differ, whatever the clock readings, so
  also at the same instant. Along a run from the start of the process with at most
  \<open>2^53\<close> successful creates (the range where \<open>idCounter++\<close> counts exactly), the ids the
  creates replied with are pairwise distinct, deleted ones included. In every state the
  process can reach no two messages in the store have the same id.
\<close>

theorem ids_are_unique:
  "(idCounter s \<noteq> idCounter s' \<longrightarrow> new_id clk s \<noteq> new_id clk' s') \<and>
   (length (created_ids (outcomes rs init_state)) \<le> 2 ^ 53 \<longrightarrow>
      distinct (created_ids (outcomes rs init_state))) \<and>
   distinct (map id_msg (Map_values (messages (final rs init_state))))"
proof -
  have "new_id clk s \<noteq> new_id clk' s'" if "idCounter s \<noteq> idCounter s'"
    using that counter_of_new_id [of clk s] counter_of_new_id [of clk' s'] by auto
  moreover have "distinct (created_ids (outcomes rs init_state))"
    if "length (created_ids (outcomes rs init_state)) \<le> 2 ^ 53"
    using created_distinct [of init_state rs] that by (simp add: init_state_def)
  moreover have "distinct (map id_msg (Map_values (messages (final rs init_state))))"
    using keyed_final [of rs] by (simp add: keyed_ids) (simp add: keyed_def)
  ultimately show ?thesis by blast
qed

theorem ids_are_unique_witness:
  "idCounter init_state \<noteq> idCounter state1 \<and>
   new_id clock0 init_state \<noteq> new_id clock0 state1 \<and>
   length (created_ids (outcomes two_creates init_state)) \<le> 2 ^ 53 \<and>
   created_ids (outcomes two_creates init_state) = [id0, id1] \<and>
   distinct (created_ids (outcomes two_creates init_state)) \<and>
   distinct (map id_msg (Map_values (messages (final two_creates init_state))))"
proof -
  have c: "idCounter init_state \<noteq> idCounter state1"
    by (simp add: state1_eq init_state_def)
  have ids: "created_ids (outcomes two_creates init_state) = [id0, id1]"
    by (simp add: outcomes_two_creates created_ids_def message1_def message2_def
        List.map_filter_simps)
  have len: "length (created_ids (outcomes two_creates init_state)) \<le> 2 ^ 53"
    by (simp add: ids)
  show ?thesis
    using ids_are_unique [of init_state state1 clock0 clock0 two_creates] c ids len
    by simp
qed

section \<open>Stored content\<close>

text \<open>
  C9. In every state the process can reach, the content of every message in the store
  is a string that is not empty and not made of white space only. The store is empty at
  the start, create and update store only content that passed the guard, and no other
  handler writes a content.
\<close>

theorem stored_content_not_blank:
  assumes "(k, m) \<in> set (messages (final rs init_state))"
  shows "\<exists>str. content m = JStr str \<and> str \<noteq> [] \<and> \<not> list_all is_whitespace str \<and>
           trim str \<noteq> []"
proof -
  from accepted_final [of rs] assms have "\<not> fails_validation (content m)"
    by (auto simp: accepted_def list_all_iff content_rejected_iff)
  then obtain str where str: "content m = JStr str" and t: "trim str \<noteq> []"
    by (cases "content m") (auto simp: fails_validation_def)
  from t have "\<not> list_all is_whitespace str" "str \<noteq> []"
    by (auto simp: trim_empty list_all_iff)
  with str t show ?thesis by blast
qed

theorem stored_content_not_blank_witness:
  "(id0, message1) \<in> set (messages (final [(clock0, PostMessages (with_content (JStr hello))),
      (clock1, PutMessage id0 (with_content (JStr blank)))] init_state)) \<and>
   (\<exists>str. content message1 = JStr str \<and> str \<noteq> [] \<and> \<not> list_all is_whitespace str \<and>
      trim str \<noteq> [])"
proof -
  have "put_message clock1 id0 (with_content (JStr blank)) state1 =
      (Inr \<lparr>statusCode = 400, body = ErrorBody content_required\<rparr>, state1)"
    using blank_invalid by (simp add: put_message_def with_content_def content_rejected_iff)
  then have "final [(clock0, PostMessages (with_content (JStr hello))),
      (clock1, PutMessage id0 (with_content (JStr blank)))] init_state = state1"
    by (simp add: state1_def)
  then have mem: "(id0, message1) \<in> set (messages (final
      [(clock0, PostMessages (with_content (JStr hello))),
       (clock1, PutMessage id0 (with_content (JStr blank)))] init_state))"
    by (simp add: state1_eq)
  show ?thesis
    using stored_content_not_blank [OF mem] mem by blast
qed

section \<open>The absent body\<close>

text \<open>
  C10. When \<open>request.body\<close> is \<open>undefined\<close>, the create and the update handler throw a
  TypeError at the destructuring, before the guard on the content is evaluated: neither
  replies with the 400 of a validation failure, whatever the state and the id, and the
  state stays as it was.
\<close>

theorem absent_body_throws:
  "post_messages clk JUndefined s = (Inl TypeError, s) \<and>
   put_message clk i JUndefined s = (Inl TypeError, s)"
  by (simp add: post_messages_def put_message_def)

theorem absent_body_throws_witness:
  "post_messages clock0 JUndefined init_state = (Inl TypeError, init_state) \<and>
   put_message clock0 id0 JUndefined init_state = (Inl TypeError, init_state)"
  using absent_body_throws [of clock0 init_state id0] by simp

end
